theory Spec2Isabelle
  imports Complex_Main
begin

section \<open>The Twitter posting agent (src/src/twitter_agent.py)\<close>

text \<open>
  A shallow embedding of the posting and retry code of class TwitterAgent. Everything the
  agent gets from outside (the random module, the two Twitter clients, the OpenAI client,
  the tweets file) is an input of the model; every exception the code can raise on its own
  is a value. Texts are \<^typ>\<open>string\<close>: one \<^typ>\<open>char\<close> stands for one code point of the
  Python str, so \<^const>\<open>length\<close> is Python's len.
\<close>

subsection \<open>Exceptions and the random module\<close>

datatype exn =
    IndexError
  | UnboundLocalError
  | FileNotFoundError
  | IsADirectoryError
  | PermissionError
  | UnicodeDecodeError

text \<open>
  random.choice(seq) raises IndexError on an empty sequence and returns seq[i] for a drawn
  index i below len(seq) otherwise. The draw is the argument r, reduced below the length.
\<close>

definition random_choice :: "nat \<Rightarrow> 'a list \<Rightarrow> exn + 'a" where
  "random_choice r seq =
     (if seq = [] then Inl IndexError else Inr (seq ! (r mod length seq)))"

text \<open>
  random.uniform(a, b) returns a number N with a \<open>\<le>\<close> N \<open>\<le>\<close> b when a \<open>\<le>\<close> b. Where N falls
  between the two arguments is the draw, a number of the unit interval.
\<close>

typedef fraction = "{x::real. 0 \<le> x \<and> x \<le> 1}"
  by (rule exI [of _ 0]) simp

setup_lifting type_definition_fraction

definition random_uniform :: "real \<Rightarrow> real \<Rightarrow> fraction \<Rightarrow> real" where
  "random_uniform a b d = a + (b - a) * Rep_fraction d"

subsection \<open>Floating point\<close>

text \<open>
  A Python float is a binary double. A sum of floats, and a conversion from int, is the exact
  result rounded to a double; the rounding never reverses an order and leaves the integers up
  to 2^53, which are doubles, as they are. That is all that is used of it here, so the
  rounding is a parameter with these two properties.
\<close>

typedef rounding =
  "{f::real \<Rightarrow> real. mono f \<and> (\<forall>n::int. \<bar>n\<bar> \<le> 2 ^ 53 \<longrightarrow> f (of_int n) = of_int n)}"
  by (rule exI [of _ "\<lambda>x. x"]) (simp add: mono_def)

setup_lifting type_definition_rounding

definition float_of_int :: "rounding \<Rightarrow> int \<Rightarrow> real" where
  "float_of_int fl n = Rep_rounding fl (of_int n)"

definition float_add :: "rounding \<Rightarrow> real \<Rightarrow> real \<Rightarrow> real" where
  "float_add fl x y = Rep_rounding fl (x + y)"

subsection \<open>Text helpers\<close>

text \<open>str.isspace on the code points below 256, and str.strip() without arguments.\<close>

definition py_isspace :: "char \<Rightarrow> bool" where
  "py_isspace c =
     (let n = (of_char c :: nat)
      in (9 \<le> n \<and> n \<le> 13) \<or> (28 \<le> n \<and> n \<le> 32) \<or> n = 133 \<or> n = 160)"

definition py_strip :: "string \<Rightarrow> string" where
  "py_strip s = rev (dropWhile py_isspace (rev (dropWhile py_isspace s)))"

text \<open>The test \<open>sub in s\<close> on two strings.\<close>

definition py_in :: "string \<Rightarrow> string \<Rightarrow> bool" where
  "py_in sub s = list_ex (\<lambda>i. take (length sub) (drop i s) = sub) [0..<Suc (length s)]"

subsection \<open>Loading the corpus (\_load\_tweets, lines 123-135)\<close>



subsection \<open>The outside world\<close>

text \<open>
  What the try block around self.api.create\_tweet (lines 176-190, 290-299) can do:
  \<^item> \<open>V2_Data i\<close>: the response is truthy and has an attribute data, whose id is \<open>i\<close>;
  \<^item> \<open>V2_No_Data\<close>: the call returns, and the response is falsy or has no attribute data;
  \<^item> \<open>V2_TooManyRequests\<close>: tweepy.errors.TooManyRequests is raised;
  \<^item> \<open>V2_Exception\<close>: any other Exception is raised inside the block.
  Likewise for self.api\_v1.update\_status (lines 192-202, 302-308).
\<close>

datatype v2_outcome = V2_Data string | V2_No_Data | V2_TooManyRequests | V2_Exception

datatype v1_outcome = V1_Status string | V1_TooManyRequests | V1_Exception

text \<open>
  What the try block of generate\_ai\_tweet (lines 231-266) gets from the backend: a str in
  response.choices[0].message.content, or an Exception (a backend or network error, an
  empty list of choices, a content that is None).
\<close>

datatype ai_outcome = AI_Content string | AI_Exception

text \<open>
  The environment of one call. \<open>choice\<close> and \<open>uniform\<close> are the draws of random.choice and
  of random.uniform; they and the two channels are indexed by the loop variable retry of the
  iteration that makes the call (0 for the calls outside the loop). \<open>float_round\<close> is the
  rounding of the float arithmetic.
\<close>

record env =
  choice :: "nat \<Rightarrow> nat"
  uniform :: "nat \<Rightarrow> fraction"
  float_round :: rounding
  create_tweet :: "nat \<Rightarrow> string \<Rightarrow> v2_outcome"
  update_status :: "nat \<Rightarrow> string \<Rightarrow> v1_outcome"
  openai_api_key :: bool
  ai_client :: bool
  completion :: "string option \<Rightarrow> ai_outcome"

subsection \<open>post\_tweet (lines 137-216)\<close>

datatype channel = API_v2 | API_v1

text \<open>How a call ends: which return statement it reaches, or the exception that escapes.\<close>

datatype outcome =
    No_Tweets
  | Posted channel string
  | Failed
  | Raised exn

text \<open>How one iteration of the for loop ends.\<close>

datatype step = Return channel string | Continue | Break | Raise exn

text \<open>
  The log of one iteration: the loop variable, the argument of time.sleep if it was called,
  the variable used\_tweets when the iteration starts and when it ends, the variable tweet
  when it ends, and what each channel answered if it was called.
\<close>

record round =
  retry :: nat
  slept :: "real option"
  used_before :: "string set"
  candidate :: string
  used_after :: "string set"
  v2_result :: "v2_outcome option"
  v1_result :: "v1_outcome option"

definition max_retries :: nat where
  "max_retries = 5"

definition initial_backoff :: int where
  "initial_backoff = 60"

text \<open>
  Line 157, for retry \<open>r\<close> > 0: the int initial\_backoff * (2 ** (retry - 1)) is converted to
  float and added to the float that random.uniform(0, 10) returns.
\<close>

definition backoff_time :: "env \<Rightarrow> nat \<Rightarrow> real" where
  "backoff_time env r =
     float_add (float_round env)
       (float_of_int (float_round env) (initial_backoff * 2 ^ (r - 1)))
       (random_uniform 0 10 (uniform env r))"

text \<open>
  Lines 162-169: the new values of tweet and used\_tweets, and the exception of random.choice
  if it raises (tweet then keeps its value).
\<close>

definition select_retry ::
  "nat \<Rightarrow> string list \<Rightarrow> string \<Rightarrow> string set \<Rightarrow> exn option \<times> string \<times> string set" where
  "select_retry r tweets tweet used_tweets =
     (let available_tweets = filter (\<lambda>t. t \<notin> used_tweets) tweets;
          reset = (available_tweets = []);
          used_tweets = (if reset then {} else used_tweets);
          available_tweets = (if reset then tweets else available_tweets)
      in case random_choice r available_tweets of
           Inl x \<Rightarrow> (Some x, tweet, used_tweets)
         | Inr t \<Rightarrow> (None, t, insert t used_tweets))"

text \<open>
  Line 205 reads the local variable e. Python unbinds the target of \<open>except ... as e\<close> when
  the except clause is left, so the argument is the binding of e at that line: \<open>None\<close> when
  it is unbound, the text str(e) otherwise. When the test is false the body ends and the
  loop goes on.
\<close>

definition line_205 :: "string option \<Rightarrow> step" where
  "line_205 e =
     (case e of
        None \<Rightarrow> Raise UnboundLocalError
      | Some s \<Rightarrow> if \<not> py_in ''TooManyRequests'' s then Break else Continue)"

text \<open>
  Lines 172-206. Line 205 is reached only through the except clause of lines 201-202, which
  has unbound e on leaving.
\<close>

definition deliver :: "env \<Rightarrow> nat \<Rightarrow> string \<Rightarrow> v2_outcome \<times> v1_outcome option \<times> step" where
  "deliver env r tweet =
     (let response = create_tweet env r tweet
      in case response of
           V2_Data i \<Rightarrow> (response, None, Return API_v2 i)
         | V2_TooManyRequests \<Rightarrow> (response, None, Continue)
         | _ \<Rightarrow>
             (let status = update_status env r tweet
              in case status of
                   V1_Status i \<Rightarrow> (response, Some status, Return API_v1 i)
                 | V1_TooManyRequests \<Rightarrow> (response, Some status, Continue)
                 | V1_Exception \<Rightarrow> (response, Some status, line_205 None)))"

text \<open>
  One pass through the body of the for loop (lines 155-206) with loop variable \<open>r\<close>: its
  log and how it ends. The values of tweet and used\_tweets it leaves behind are the fields
  \<open>candidate\<close> and \<open>used_after\<close> of the log.
\<close>

definition iteration :: "env \<Rightarrow> string list \<Rightarrow> nat \<Rightarrow> string \<Rightarrow> string set \<Rightarrow> round \<times> step" where
  "iteration env tweets r tweet used_tweets =
     (let (sl, x, tweet', used') =
            (if r > 0
             then (Some (backoff_time env r), select_retry (choice env r) tweets tweet used_tweets)
             else (None, None, tweet, used_tweets));
          rd = \<lparr>retry = r, slept = sl, used_before = used_tweets, candidate = tweet',
                used_after = used', v2_result = None, v1_result = None\<rparr>
      in case x of
           Some err \<Rightarrow> (rd, Raise err)
         | None \<Rightarrow>
             (let (response, status, st) = deliver env r tweet'
              in (rd\<lparr>v2_result := Some response, v1_result := status\<rparr>, st)))"

text \<open>
  The for loop of lines 154-206 over the values of range(max\_retries + 1) still to come;
  an exhausted loop and a break both reach the error report of lines 208-216.
\<close>

fun retry_loop ::
  "env \<Rightarrow> string list \<Rightarrow> nat list \<Rightarrow> string \<Rightarrow> string set \<Rightarrow> round list \<times> outcome" where
  "retry_loop env tweets [] tweet used_tweets = ([], Failed)"
| "retry_loop env tweets (r # rest) tweet used_tweets =
     (let (rd, st) = iteration env tweets r tweet used_tweets
      in case st of
           Return ch i \<Rightarrow> ([rd], Posted ch i)
         | Break \<Rightarrow> ([rd], Failed)
         | Raise err \<Rightarrow> ([rd], Raised err)
         | Continue \<Rightarrow>
             apfst ((#) rd) (retry_loop env tweets rest (candidate rd) (used_after rd)))"

definition post_tweet :: "env \<Rightarrow> string list \<Rightarrow> round list \<times> outcome" where
  "post_tweet env tweets =
     (if tweets = [] then ([], No_Tweets)
      else case random_choice (choice env 0) tweets of
             Inl err \<Rightarrow> ([], Raised err)
           | Inr tweet \<Rightarrow> retry_loop env tweets [0..<max_retries + 1] tweet {tweet})"

subsection \<open>generate\_ai\_tweet (lines 218-271) and post\_ai\_tweet (lines 273-311)\<close>

definition validate_ai_credentials :: "env \<Rightarrow> bool" where
  "validate_ai_credentials env = openai_api_key env"

definition generate_ai_tweet :: "env \<Rightarrow> string list \<Rightarrow> string option \<Rightarrow> exn + string" where
  "generate_ai_tweet env tweets topic =
     (if \<not> validate_ai_credentials env \<or> \<not> ai_client env
      then random_choice (choice env 0) tweets
      else case completion env topic of
             AI_Content content \<Rightarrow>
               (let tweet_text = py_strip content
                in Inr (if length tweet_text > 280 then take 277 tweet_text @ ''...''
                        else tweet_text))
           | AI_Exception \<Rightarrow> random_choice (choice env 0) tweets)"

text \<open>The log of post\_ai\_tweet: the text posted and what each channel answered.\<close>

record ai_post =
  ai_tweet :: string
  ai_v2 :: v2_outcome
  ai_v1 :: "v1_outcome option"

definition post_ai_tweet :: "env \<Rightarrow> string list \<Rightarrow> string option \<Rightarrow> ai_post option \<times> outcome" where
  "post_ai_tweet env tweets topic =
     (case generate_ai_tweet env tweets topic of
        Inl err \<Rightarrow> (None, Raised err)
      | Inr tweet \<Rightarrow>
          (let response = create_tweet env 0 tweet
           in case response of
                V2_Data i \<Rightarrow>
                  (Some \<lparr>ai_tweet = tweet, ai_v2 = response, ai_v1 = None\<rparr>, Posted API_v2 i)
              | _ \<Rightarrow>
                  (let status = update_status env 0 tweet;
                       p = \<lparr>ai_tweet = tweet, ai_v2 = response, ai_v1 = Some status\<rparr>
                   in case status of
                        V1_Status i \<Rightarrow> (Some p, Posted API_v1 i)
                      | _ \<Rightarrow> (Some p, Failed))))"

subsection \<open>Reading the log\<close>

text \<open>A round is rate limited when the last channel it called raised TooManyRequests.\<close>

definition rate_limited :: "round \<Rightarrow> bool" where
  "rate_limited rd \<longleftrightarrow>
     v2_result rd = Some V2_TooManyRequests \<or> v1_result rd = Some V1_TooManyRequests"

subsection \<open>Sample environments\<close>

text \<open>A float arithmetic in which every sum is exact, and three draws of random.uniform.\<close>

lift_definition exact_rounding :: rounding is "\<lambda>x. x"
  by (simp add: mono_def)

lift_definition lowest :: fraction is "0"
  by simp

lift_definition three_tenths :: fraction is "3 / 10"
  by simp

lift_definition highest :: fraction is "1"
  by simp

text \<open>Every call of the rich channel is rate limited; the first draw picks the second tweet.\<close>

definition env_limited :: env where
  "env_limited =
     \<lparr>choice = (\<lambda>k. if k = 0 then 1 else 0),
      uniform = (\<lambda>k. if k = 1 then lowest else if k = 2 then highest else three_tenths),
      float_round = exact_rounding,
      create_tweet = (\<lambda>_ _. V2_TooManyRequests), update_status = (\<lambda>_ _. V1_Exception),
      openai_api_key = False, ai_client = False, completion = (\<lambda>_. AI_Exception)\<rparr>"

text \<open>Both channels refuse every call with an error that is not a rate limit.\<close>

definition env_denied :: env where
  "env_denied =
     \<lparr>choice = (\<lambda>_. 0), uniform = (\<lambda>_. lowest), float_round = exact_rounding,
      create_tweet = (\<lambda>_ _. V2_Exception), update_status = (\<lambda>_ _. V1_Exception),
      openai_api_key = False, ai_client = False, completion = (\<lambda>_. AI_Exception)\<rparr>"

text \<open>
  The backend answers with a text; the rich channel returns a response without data and the
  legacy channel posts.
\<close>

definition env_no_data :: env where
  "env_no_data =
     \<lparr>choice = (\<lambda>_. 0), uniform = (\<lambda>_. lowest), float_round = exact_rounding,
      create_tweet = (\<lambda>_ _. V2_No_Data), update_status = (\<lambda>_ _. V1_Status ''17''),
      openai_api_key = True, ai_client = True, completion = (\<lambda>_. AI_Content '' gm '')\<rparr>"

text \<open>As before, with a rich channel that is rate limited.\<close>

definition env_ai_limited :: env where
  "env_ai_limited =
     \<lparr>choice = (\<lambda>_. 0), uniform = (\<lambda>_. lowest), float_round = exact_rounding,
      create_tweet = (\<lambda>_ _. V2_TooManyRequests), update_status = (\<lambda>_ _. V1_Status ''17''),
      openai_api_key = True, ai_client = True, completion = (\<lambda>_. AI_Content '' gm '')\<rparr>"

text \<open>
  The backend answers with 300 characters between blanks; the rich channel posts.
\<close>

definition long_reply :: string where
  "long_reply = '' '' @ replicate 300 (CHR ''a'') @ '' ''"

definition env_long_reply :: env where
  "env_long_reply =
     \<lparr>choice = (\<lambda>_. 0), uniform = (\<lambda>_. lowest), float_round = exact_rounding,
      create_tweet = (\<lambda>_ _. V2_Data ''18''), update_status = (\<lambda>_ _. V1_Exception),
      openai_api_key = True, ai_client = True, completion = (\<lambda>_. AI_Content long_reply)\<rparr>"

text \<open>A corpus entry of 281 characters.\<close>

definition long_tweet :: string where
  "long_tweet = replicate 281 (CHR ''a'')"

section \<open>Properties\<close>

subsection \<open>The jitter and the float sum\<close>

lemma random_uniform_range:
  assumes "a \<le> b"
  shows "a \<le> random_uniform a b d \<and> random_uniform a b d \<le> b"
proof -
  from Rep_fraction [of d] have r: "0 \<le> Rep_fraction d" "Rep_fraction d \<le> 1"
    by simp_all
  from assms r have "0 \<le> (b - a) * Rep_fraction d"
    by simp
  moreover from assms r have "(b - a) * Rep_fraction d \<le> (b - a) * 1"
    by (intro mult_left_mono) simp_all
  ultimately show ?thesis
    by (simp add: random_uniform_def)
qed

lemma rounding_mono: "x \<le> y \<Longrightarrow> Rep_rounding fl x \<le> Rep_rounding fl y"
  using Rep_rounding [of fl] by (simp add: mono_def)

lemma rounding_int: "\<bar>n\<bar> \<le> 2 ^ 53 \<Longrightarrow> Rep_rounding fl (of_int n) = of_int n"
  using Rep_rounding [of fl] by simp

lemma float_of_int_exact: "\<bar>n\<bar> \<le> 2 ^ 53 \<Longrightarrow> float_of_int fl n = of_int n"
  by (simp add: float_of_int_def rounding_int)

lemma float_add_bounds:
  assumes "\<bar>n\<bar> \<le> 2 ^ 53" "\<bar>n + k\<bar> \<le> 2 ^ 53" "0 \<le> y" "y \<le> of_int k"
  shows "of_int n \<le> float_add fl (of_int n) y \<and> float_add fl (of_int n) y \<le> of_int (n + k)"
proof -
  from assms(3) have "Rep_rounding fl (of_int n) \<le> Rep_rounding fl (of_int n + y)"
    by (intro rounding_mono) simp
  with rounding_int [OF assms(1), of fl] have lower: "of_int n \<le> float_add fl (of_int n) y"
    by (simp add: float_add_def)
  from assms(4) have "Rep_rounding fl (of_int n + y) \<le> Rep_rounding fl (of_int (n + k))"
    by (intro rounding_mono) simp
  with rounding_int [OF assms(2), of fl] have "float_add fl (of_int n) y \<le> of_int (n + k)"
    by (simp add: float_add_def)
  with lower show ?thesis ..
qed

lemma backoff_time_bounds:
  assumes "1 \<le> r" "r \<le> max_retries"
  shows "backoff_time env r =
           float_add (float_round env) (60 * 2 ^ (r - 1)) (random_uniform 0 10 (uniform env r)) \<and>
         60 * 2 ^ (r - 1) \<le> backoff_time env r \<and> backoff_time env r \<le> 60 * 2 ^ (r - 1) + 10"
proof -
  let ?n = "(60::int) * 2 ^ (r - 1)"
  let ?N = "random_uniform 0 10 (uniform env r)"
  from assms(2) have "r - 1 \<le> 4"
    by (simp add: max_retries_def)
  then have "(2::int) ^ (r - 1) \<le> 2 ^ 4"
    by (intro power_increasing) simp_all
  then have small: "0 \<le> ?n" "?n \<le> 960"
    by simp_all
  then have n: "\<bar>?n\<bar> \<le> 2 ^ 53" and nk: "\<bar>?n + 10\<bar> \<le> 2 ^ 53"
    by simp_all
  from random_uniform_range [of 0 10 "uniform env r"]
  have jitter: "0 \<le> ?N" "?N \<le> real_of_int 10"
    by simp_all
  from float_of_int_exact [OF n, of "float_round env"]
  have eq: "backoff_time env r = float_add (float_round env) (real_of_int ?n) ?N"
    by (simp add: backoff_time_def initial_backoff_def)
  from float_add_bounds [OF n nk jitter, of "float_round env"] eq show ?thesis
    by simp
qed

subsection \<open>Selection on retry\<close>

lemma select_retry_None:
  "tweets \<noteq> [] \<Longrightarrow> fst (select_retry r tweets tw U) = None"
  by (simp add: select_retry_def random_choice_def Let_def)

lemma select_retry_spec:
  assumes "tweets \<noteq> []" and "select_retry r tweets tw U = (x, t, U')"
  shows "t \<in> set tweets \<and>
         (if set tweets \<subseteq> U then U' = {t} else t \<notin> U \<and> U' = insert t U)"
proof (cases "filter (\<lambda>t. t \<notin> U) tweets = []")
  case True
  then have sub: "set tweets \<subseteq> U"
    by (auto simp: filter_empty_conv)
  from True assms have "t = tweets ! (r mod length tweets) \<and> U' = {t}"
    by (auto simp: select_retry_def random_choice_def Let_def)
  with assms(1) sub show ?thesis by simp
next
  case False
  let ?av = "filter (\<lambda>t. t \<notin> U) tweets"
  from False have nsub: "\<not> set tweets \<subseteq> U"
    by (auto simp: filter_empty_conv)
  from False assms have eq: "t = ?av ! (r mod length ?av) \<and> U' = insert t U"
    by (auto simp: select_retry_def random_choice_def Let_def)
  from False have "?av ! (r mod length ?av) \<in> set ?av"
    by (intro nth_mem) simp
  with eq have "t \<in> set tweets \<and> t \<notin> U" by simp
  with eq nsub show ?thesis by simp
qed

subsection \<open>One iteration\<close>

lemma iteration_retry: "retry (fst (iteration env tweets r tw U)) = r"
  by (simp add: iteration_def Let_def split: prod.splits option.splits)

lemma iteration_used_before: "used_before (fst (iteration env tweets r tw U)) = U"
  by (simp add: iteration_def Let_def split: prod.splits option.splits)

lemma iteration_slept:
  "slept (fst (iteration env tweets r tw U)) =
     (if r > 0 then Some (backoff_time env r) else None)"
  by (simp add: iteration_def Let_def split: prod.splits option.splits)

lemma iteration_first:
  "candidate (fst (iteration env tweets 0 tw U)) = tw \<and>
   used_after (fst (iteration env tweets 0 tw U)) = U"
  by (simp add: iteration_def Let_def split: prod.splits option.splits)

lemma iteration_select:
  assumes "tweets \<noteq> []" "r > 0"
  shows "v2_result (fst (iteration env tweets r tw U)) \<noteq> None \<and>
     candidate (fst (iteration env tweets r tw U)) \<in> set tweets \<and>
     (if set tweets \<subseteq> U
      then used_after (fst (iteration env tweets r tw U)) =
             {candidate (fst (iteration env tweets r tw U))}
      else candidate (fst (iteration env tweets r tw U)) \<notin> U \<and>
           used_after (fst (iteration env tweets r tw U)) =
             insert (candidate (fst (iteration env tweets r tw U))) U)"
proof -
  obtain x t U' where sel: "select_retry (choice env r) tweets tw U = (x, t, U')"
    by (cases "select_retry (choice env r) tweets tw U") auto
  from select_retry_None [OF assms(1), of "choice env r" tw U] sel have x: "x = None"
    by simp
  from sel x assms(2) have
    "candidate (fst (iteration env tweets r tw U)) = t"
    "used_after (fst (iteration env tweets r tw U)) = U'"
    "v2_result (fst (iteration env tweets r tw U)) \<noteq> None"
    by (simp_all add: iteration_def Let_def split: prod.splits)
  with select_retry_spec [OF assms(1) sel] show ?thesis
    by simp
qed

lemma iteration_channels:
  "(\<forall>o2. v2_result (fst (iteration env tweets r tw U)) = Some o2 \<longrightarrow>
      o2 = create_tweet env r (candidate (fst (iteration env tweets r tw U)))) \<and>
   (v2_result (fst (iteration env tweets r tw U)) = Some V2_TooManyRequests \<longrightarrow>
      v1_result (fst (iteration env tweets r tw U)) = None) \<and>
   (v2_result (fst (iteration env tweets r tw U)) = Some V2_No_Data \<or>
    v2_result (fst (iteration env tweets r tw U)) = Some V2_Exception \<longrightarrow>
      v1_result (fst (iteration env tweets r tw U)) =
        Some (update_status env r (candidate (fst (iteration env tweets r tw U)))))"
  by (auto simp: iteration_def deliver_def Let_def
           split: prod.splits option.splits v2_outcome.splits v1_outcome.splits)

lemma iteration_Continue:
  "snd (iteration env tweets r tw U) = Continue \<longleftrightarrow>
   rate_limited (fst (iteration env tweets r tw U))"
  by (auto simp: iteration_def deliver_def Let_def rate_limited_def line_205_def
           split: prod.splits option.splits v2_outcome.splits v1_outcome.splits)

subsection \<open>The retry loop\<close>

lemma fst_retry_loop_Cons:
  "fst (retry_loop env tweets (r # rest) tw U) =
     fst (iteration env tweets r tw U) #
     (if snd (iteration env tweets r tw U) = Continue
      then fst (retry_loop env tweets rest
                  (candidate (fst (iteration env tweets r tw U)))
                  (used_after (fst (iteration env tweets r tw U))))
      else [])"
  by (simp add: Let_def split: prod.splits step.splits)

lemma fst_retry_loop_Nil: "fst (retry_loop env tweets [] tw U) = []"
  by simp

lemma snd_retry_loop_Nil: "snd (retry_loop env tweets [] tw U) = Failed"
  by simp

lemma snd_retry_loop_Cons:
  "snd (retry_loop env tweets (r # rest) tw U) =
     (case snd (iteration env tweets r tw U) of
        Return ch i \<Rightarrow> Posted ch i
      | Break \<Rightarrow> Failed
      | Raise err \<Rightarrow> Raised err
      | Continue \<Rightarrow>
          snd (retry_loop env tweets rest
                 (candidate (fst (iteration env tweets r tw U)))
                 (used_after (fst (iteration env tweets r tw U)))))"
  by (simp add: Let_def split: prod.splits step.splits)

declare retry_loop.simps [simp del]

declare fst_retry_loop_Nil [simp] snd_retry_loop_Nil [simp]

lemma retry_loop_nonempty: "rs \<noteq> [] \<Longrightarrow> fst (retry_loop env tweets rs tw U) \<noteq> []"
  by (cases rs) (simp_all add: fst_retry_loop_Cons)

lemmas rounds_simps = fst_retry_loop_Nil fst_retry_loop_Cons

lemma retry_loop_length:
  "length (fst (retry_loop env tweets rs tw U)) \<le> length rs"
  by (induction rs arbitrary: tw U) (simp_all add: rounds_simps)

lemma retry_loop_retry:
  "map retry (fst (retry_loop env tweets rs tw U)) =
     take (length (fst (retry_loop env tweets rs tw U))) rs"
  by (induction rs arbitrary: tw U) (simp_all add: rounds_simps iteration_retry)

lemma retry_loop_slept:
  "rd \<in> set (fst (retry_loop env tweets rs tw U)) \<Longrightarrow>
     slept rd = (if retry rd > 0 then Some (backoff_time env (retry rd)) else None)"
  by (induction rs arbitrary: tw U)
     (auto simp: rounds_simps iteration_retry iteration_slept split: if_splits)

lemma retry_loop_select:
  "tweets \<noteq> [] \<Longrightarrow> rd \<in> set (fst (retry_loop env tweets rs tw U)) \<Longrightarrow> retry rd > 0 \<Longrightarrow>
     v2_result rd \<noteq> None \<and> candidate rd \<in> set tweets \<and>
     (if set tweets \<subseteq> used_before rd then used_after rd = {candidate rd}
      else candidate rd \<notin> used_before rd \<and>
           used_after rd = insert (candidate rd) (used_before rd))"
proof (induction rs arbitrary: tw U)
  case Nil
  then show ?case by simp
next
  case (Cons r rest)
  let ?rd = "fst (iteration env tweets r tw U)"
  from Cons.prems(2) consider "rd = ?rd"
    | "rd \<in> set (fst (retry_loop env tweets rest (candidate ?rd) (used_after ?rd)))"
    by (auto simp: rounds_simps split: if_splits)
  then show ?case
  proof cases
    case 1
    with Cons.prems(3) have "r > 0" by (simp add: iteration_retry)
    from iteration_select [OF Cons.prems(1) this, of env tw U] 1 show ?thesis
      by (simp add: iteration_used_before)
  next
    case 2
    with Cons.IH Cons.prems show ?thesis by blast
  qed
qed

lemma retry_loop_hd:
  "fst (retry_loop env tweets rs tw U) \<noteq> [] \<Longrightarrow>
     used_before (hd (fst (retry_loop env tweets rs tw U))) = U"
  by (cases rs) (simp_all add: rounds_simps iteration_used_before)

lemma retry_loop_chain:
  "successively (\<lambda>p c. used_before c = used_after p) (fst (retry_loop env tweets rs tw U))"
proof (induction rs arbitrary: tw U)
  case Nil
  show ?case by simp
next
  case (Cons r rest)
  show ?case
    using Cons.IH
    by (auto simp: fst_retry_loop_Cons successively_Cons retry_loop_hd)
qed

lemma retry_loop_candidate_used:
  "tweets \<noteq> [] \<Longrightarrow> tw \<in> U \<Longrightarrow> rd \<in> set (fst (retry_loop env tweets rs tw U)) \<Longrightarrow>
     candidate rd \<in> used_after rd"
proof (induction rs arbitrary: tw U)
  case Nil
  then show ?case by simp
next
  case (Cons r rest)
  let ?rd = "fst (iteration env tweets r tw U)"
  have here: "candidate ?rd \<in> used_after ?rd"
  proof (cases "r > 0")
    case True
    from iteration_select [OF Cons.prems(1) True, of env tw U] show ?thesis
      by (auto split: if_splits)
  next
    case False
    with Cons.prems(2) iteration_first [of env tweets tw U] show ?thesis by simp
  qed
  from Cons.prems(3) consider "rd = ?rd"
    | "rd \<in> set (fst (retry_loop env tweets rest (candidate ?rd) (used_after ?rd)))"
    by (auto simp: rounds_simps split: if_splits)
  then show ?case
  proof cases
    case 1
    with here show ?thesis by simp
  next
    case 2
    from Cons.IH [OF Cons.prems(1) here 2] show ?thesis .
  qed
qed

lemma retry_loop_channels:
  "rd \<in> set (fst (retry_loop env tweets rs tw U)) \<Longrightarrow>
     (\<forall>o2. v2_result rd = Some o2 \<longrightarrow> o2 = create_tweet env (retry rd) (candidate rd)) \<and>
     (v2_result rd = Some V2_TooManyRequests \<longrightarrow> v1_result rd = None) \<and>
     (v2_result rd = Some V2_No_Data \<or> v2_result rd = Some V2_Exception \<longrightarrow>
        v1_result rd = Some (update_status env (retry rd) (candidate rd)))"
proof (induction rs arbitrary: tw U)
  case Nil
  then show ?case by simp
next
  case (Cons r rest)
  let ?rd = "fst (iteration env tweets r tw U)"
  from Cons.prems consider "rd = ?rd"
    | "rd \<in> set (fst (retry_loop env tweets rest (candidate ?rd) (used_after ?rd)))"
    by (auto simp: rounds_simps split: if_splits)
  then show ?case
  proof cases
    case 1
    with iteration_channels [of env tweets r tw U] iteration_retry [of env tweets r tw U]
    show ?thesis by simp
  next
    case 2
    then show ?thesis by (rule Cons.IH)
  qed
qed

lemma retry_loop_goes_on:
  "i < length (fst (retry_loop env tweets rs tw U)) \<Longrightarrow>
   Suc i < length rs \<Longrightarrow>
   rate_limited (fst (retry_loop env tweets rs tw U) ! i) \<longleftrightarrow>
   Suc i < length (fst (retry_loop env tweets rs tw U))"
proof (induction rs arbitrary: i tw U)
  case Nil
  then show ?case by simp
next
  case (Cons r rest)
  show ?case
  proof (cases i)
    case 0
    with Cons.prems(2) have "rest \<noteq> []" by auto
    with 0 show ?thesis
      by (simp add: fst_retry_loop_Cons iteration_Continue retry_loop_nonempty)
  next
    case (Suc j)
    with Cons.prems Cons.IH [of j] show ?thesis
      by (simp add: fst_retry_loop_Cons split: if_splits)
  qed
qed

lemma retry_loop_candidate_corpus:
  "tweets \<noteq> [] \<Longrightarrow> tw \<in> set tweets \<Longrightarrow> rd \<in> set (fst (retry_loop env tweets rs tw U)) \<Longrightarrow>
     candidate rd \<in> set tweets"
proof (induction rs arbitrary: tw U)
  case Nil
  then show ?case by simp
next
  case (Cons r rest)
  let ?rd = "fst (iteration env tweets r tw U)"
  have here: "candidate ?rd \<in> set tweets"
  proof (cases "r > 0")
    case True
    from iteration_select [OF Cons.prems(1) True, of env tw U] show ?thesis
      by simp
  next
    case False
    with Cons.prems(2) iteration_first [of env tweets tw U] show ?thesis by simp
  qed
  from Cons.prems(3) consider "rd = ?rd"
    | "rd \<in> set (fst (retry_loop env tweets rest (candidate ?rd) (used_after ?rd)))"
    by (auto simp: rounds_simps split: if_splits)
  then show ?case
  proof cases
    case 1
    with here show ?thesis by simp
  next
    case 2
    from Cons.IH [OF Cons.prems(1) here 2] show ?thesis .
  qed
qed

lemma retry_loop_exhausted:
  "rs \<noteq> [] \<Longrightarrow> length (fst (retry_loop env tweets rs tw U)) = length rs \<Longrightarrow>
   rate_limited (last (fst (retry_loop env tweets rs tw U))) \<Longrightarrow>
   snd (retry_loop env tweets rs tw U) = Failed"
proof (induction rs arbitrary: tw U)
  case Nil
  then show ?case by simp
next
  case (Cons r rest)
  show ?case
  proof (cases "rest = []")
    case True
    with Cons.prems show ?thesis
      by (simp add: fst_retry_loop_Cons snd_retry_loop_Cons iteration_Continue [symmetric]
               split: if_splits)
  next
    case False
    with Cons.prems Cons.IH show ?thesis
      by (simp add: fst_retry_loop_Cons snd_retry_loop_Cons retry_loop_nonempty
               split: if_splits)
  qed
qed

lemma post_tweet_empty: "post_tweet env [] = ([], No_Tweets)"
  by (simp add: post_tweet_def)

lemma post_tweet_loop:
  assumes "tweets \<noteq> []"
  obtains tw where "tw \<in> set tweets"
    and "post_tweet env tweets = retry_loop env tweets [0..<max_retries + 1] tw {tw}"
proof
  let ?tw = "tweets ! (choice env 0 mod length tweets)"
  from assms show "?tw \<in> set tweets" by simp
  from assms show "post_tweet env tweets = retry_loop env tweets [0..<max_retries + 1] ?tw {?tw}"
    by (simp add: post_tweet_def random_choice_def)
qed

lemma post_tweet_length: "length (fst (post_tweet env tweets)) \<le> max_retries + 1"
proof (cases "tweets = []")
  case True
  then show ?thesis by (simp add: post_tweet_empty)
next
  case False
  then obtain tw where "post_tweet env tweets = retry_loop env tweets [0..<max_retries + 1] tw {tw}"
    by (rule post_tweet_loop)
  with retry_loop_length [of env tweets "[0..<max_retries + 1]" tw "{tw}"] show ?thesis
    by simp
qed

lemma post_tweet_retry:
  "map retry (fst (post_tweet env tweets)) = [0..<length (fst (post_tweet env tweets))]"
proof (cases "tweets = []")
  case True
  then show ?thesis by (simp add: post_tweet_empty)
next
  case False
  then obtain tw where eq: "post_tweet env tweets = retry_loop env tweets [0..<max_retries + 1] tw {tw}"
    by (rule post_tweet_loop)
  from post_tweet_length [of env tweets]
  have "0 + length (fst (post_tweet env tweets)) \<le> max_retries + 1"
    by simp
  from take_upt [OF this]
  have "take (length (fst (post_tweet env tweets))) [0..<max_retries + 1] =
        [0..<length (fst (post_tweet env tweets))]"
    by (simp only: add_0)
  with retry_loop_retry [of env tweets "[0..<max_retries + 1]" tw "{tw}"] eq show ?thesis
    by simp
qed

lemma post_tweet_nth_retry:
  assumes "i < length (fst (post_tweet env tweets))"
  shows "retry (fst (post_tweet env tweets) ! i) = i"
proof -
  from assms have "retry (fst (post_tweet env tweets) ! i) = map retry (fst (post_tweet env tweets)) ! i"
    by simp
  also have "\<dots> = [0..<length (fst (post_tweet env tweets))] ! i"
    by (simp only: post_tweet_retry [symmetric])
  also from assms have "\<dots> = i" by simp
  finally show ?thesis .
qed

lemma post_tweet_first:
  assumes "fst (post_tweet env tweets) \<noteq> []"
  shows "used_after (fst (post_tweet env tweets) ! 0) = {candidate (fst (post_tweet env tweets) ! 0)}"
proof -
  from assms have "tweets \<noteq> []"
    by (auto simp: post_tweet_empty)
  then obtain tw where eq: "post_tweet env tweets = retry_loop env tweets [0..<max_retries + 1] tw {tw}"
    by (rule post_tweet_loop)
  have "[0..<max_retries + 1] = 0 # [1..<max_retries + 1]"
    by (simp add: upt_rec)
  with eq iteration_first [of env tweets tw "{tw}"] show ?thesis
    by (simp add: fst_retry_loop_Cons)
qed

lemma post_tweet_candidate_corpus:
  assumes "rd \<in> set (fst (post_tweet env tweets))"
  shows "candidate rd \<in> set tweets"
proof -
  from assms have ne: "tweets \<noteq> []"
    by (auto simp: post_tweet_empty)
  then obtain tw where tw: "tw \<in> set tweets"
    and eq: "post_tweet env tweets = retry_loop env tweets [0..<max_retries + 1] tw {tw}"
    by (rule post_tweet_loop)
  from assms eq have "rd \<in> set (fst (retry_loop env tweets [0..<max_retries + 1] tw {tw}))"
    by simp
  from retry_loop_candidate_corpus [OF ne tw this] show ?thesis .
qed

lemma post_tweet_channels:
  assumes "rd \<in> set (fst (post_tweet env tweets))"
  shows "(\<forall>o2. v2_result rd = Some o2 \<longrightarrow> o2 = create_tweet env (retry rd) (candidate rd)) \<and>
     (v2_result rd = Some V2_TooManyRequests \<longrightarrow> v1_result rd = None) \<and>
     (v2_result rd = Some V2_No_Data \<or> v2_result rd = Some V2_Exception \<longrightarrow>
        v1_result rd = Some (update_status env (retry rd) (candidate rd)))"
proof -
  from assms have "tweets \<noteq> []"
    by (auto simp: post_tweet_empty)
  then obtain tw where "post_tweet env tweets = retry_loop env tweets [0..<max_retries + 1] tw {tw}"
    by (rule post_tweet_loop)
  with assms have "rd \<in> set (fst (retry_loop env tweets [0..<max_retries + 1] tw {tw}))"
    by simp
  then show ?thesis by (rule retry_loop_channels)
qed

subsection \<open>Generation and the single round of post\_ai\_tweet\<close>

lemma generate_ai_tweet_cases:
  assumes "generate_ai_tweet env tweets topic = Inr m"
  shows "m \<in> set tweets \<or> length m \<le> 280"
  using assms
  by (auto simp: generate_ai_tweet_def random_choice_def Let_def
           split: if_splits ai_outcome.splits)

lemma generate_ai_tweet_total:
  "tweets \<noteq> [] \<Longrightarrow> \<exists>m. generate_ai_tweet env tweets topic = Inr m"
  by (simp add: generate_ai_tweet_def random_choice_def Let_def split: ai_outcome.splits)

lemma py_strip_long_reply: "py_strip long_reply = replicate 300 (CHR ''a'')"
proof -
  have sp: "py_isspace (CHR '' '')" and a: "\<not> py_isspace (CHR ''a'')"
    by (simp_all add: py_isspace_def)
  have r: "replicate 300 (CHR ''a'') = CHR ''a'' # replicate 299 (CHR ''a'')"
    by (simp add: replicate_Suc [symmetric] del: replicate_Suc)
  have "dropWhile py_isspace long_reply = replicate 300 (CHR ''a'') @ '' ''"
    using sp a by (simp add: long_reply_def r)
  moreover have "dropWhile py_isspace (rev (replicate 300 (CHR ''a'') @ '' '')) =
      replicate 300 (CHR ''a'')"
    using sp a by simp
  ultimately show ?thesis
    by (simp add: py_strip_def)
qed

lemma cut_length:
  "length (if 280 < length t then take 277 t @ ''...'' else t) \<le> 280 \<and>
   (280 < length t \<longrightarrow> length (if 280 < length t then take 277 t @ ''...'' else t) = 280)"
  by simp

lemma generate_ai_tweet_content:
  assumes "openai_api_key env" "ai_client env" "completion env topic = AI_Content c"
  shows "generate_ai_tweet env tweets topic =
     Inr (if 280 < length (py_strip c) then take 277 (py_strip c) @ ''...'' else py_strip c)"
  using assms by (simp add: generate_ai_tweet_def validate_ai_credentials_def Let_def)

lemma generate_ai_tweet_fallback:
  assumes "\<not> openai_api_key env \<or> \<not> ai_client env \<or> completion env topic = AI_Exception"
    and "generate_ai_tweet env tweets topic = Inr m"
  shows "m \<in> set tweets"
  using assms
  by (auto simp: generate_ai_tweet_def validate_ai_credentials_def random_choice_def
           split: if_splits)

lemma post_ai_tweet_text:
  "fst (post_ai_tweet env tweets topic) = Some p \<Longrightarrow>
     generate_ai_tweet env tweets topic = Inr (ai_tweet p)"
  by (auto simp: post_ai_tweet_def Let_def
           split: sum.splits v2_outcome.splits v1_outcome.splits)

lemma post_ai_tweet_falls_through:
  assumes "generate_ai_tweet env tweets topic = Inr t"
    and "\<forall>i. create_tweet env 0 t \<noteq> V2_Data i"
  shows "post_ai_tweet env tweets topic =
     (Some \<lparr>ai_tweet = t, ai_v2 = create_tweet env 0 t, ai_v1 = Some (update_status env 0 t)\<rparr>,
      case update_status env 0 t of V1_Status i \<Rightarrow> Posted API_v1 i | _ \<Rightarrow> Failed)"
  using assms
  by (auto simp: post_ai_tweet_def Let_def split: v2_outcome.splits v1_outcome.splits)

subsection \<open>Sample runs\<close>

lemmas eval_defs = post_tweet_def random_choice_def max_retries_def retry_loop.simps
  iteration_def select_retry_def deliver_def line_205_def backoff_time_def initial_backoff_def
  float_add_def float_of_int_def random_uniform_def exact_rounding.rep_eq lowest.rep_eq
  three_tenths.rep_eq highest.rep_eq Let_def upt_rec

lemma run_limited:
  "post_tweet env_limited [''A'', ''B''] =
  ([\<lparr>retry = 0, slept = None, used_before = {''B''}, candidate = ''B'',
      used_after = {''B''}, v2_result = Some V2_TooManyRequests, v1_result = None\<rparr>,
   \<lparr>retry = 1, slept = Some 60, used_before = {''B''}, candidate = ''A'',
      used_after = {''A'', ''B''}, v2_result = Some V2_TooManyRequests, v1_result = None\<rparr>,
   \<lparr>retry = 2, slept = Some 130, used_before = {''A'', ''B''}, candidate = ''A'',
      used_after = {''A''}, v2_result = Some V2_TooManyRequests, v1_result = None\<rparr>,
   \<lparr>retry = 3, slept = Some 243, used_before = {''A''}, candidate = ''B'',
      used_after = {''B'', ''A''}, v2_result = Some V2_TooManyRequests, v1_result = None\<rparr>,
   \<lparr>retry = 4, slept = Some 483, used_before = {''B'', ''A''}, candidate = ''A'',
      used_after = {''A''}, v2_result = Some V2_TooManyRequests, v1_result = None\<rparr>,
   \<lparr>retry = 5, slept = Some 963, used_before = {''A''}, candidate = ''B'',
      used_after = {''B'', ''A''}, v2_result = Some V2_TooManyRequests, v1_result = None\<rparr>],
  Failed)"
  by (simp add: eval_defs env_limited_def)

lemma run_no_data:
  "post_tweet env_no_data [''A'', ''B''] =
     ([\<lparr>retry = 0, slept = None, used_before = {''A''}, candidate = ''A'', used_after = {''A''},
        v2_result = Some V2_No_Data, v1_result = Some (V1_Status ''17'')\<rparr>],
      Posted API_v1 ''17'')"
  by (simp add: eval_defs env_no_data_def)

lemma run_ai_no_data:
  "post_ai_tweet env_no_data [''A'', ''B''] None =
     (Some \<lparr>ai_tweet = ''gm'', ai_v2 = V2_No_Data, ai_v1 = Some (V1_Status ''17'')\<rparr>,
      Posted API_v1 ''17'')"
  by (simp add: post_ai_tweet_def generate_ai_tweet_def validate_ai_credentials_def
        env_no_data_def py_strip_def py_isspace_def Let_def)

lemma run_long_reply:
  "post_tweet env_long_reply [''A'', ''B''] =
     ([\<lparr>retry = 0, slept = None, used_before = {''A''}, candidate = ''A'', used_after = {''A''},
        v2_result = Some (V2_Data ''18''), v1_result = None\<rparr>],
      Posted API_v2 ''18'')"
  by (simp add: eval_defs env_long_reply_def)

lemma run_ai_long_reply:
  "post_ai_tweet env_long_reply [''A'', ''B''] None =
     (Some \<lparr>ai_tweet = replicate 277 (CHR ''a'') @ ''...'', ai_v2 = V2_Data ''18'', ai_v1 = None\<rparr>,
      Posted API_v2 ''18'')"
  by (simp add: post_ai_tweet_def generate_ai_tweet_def validate_ai_credentials_def
        env_long_reply_def py_strip_long_reply Let_def)

lemma run_ai_denied:
  "post_ai_tweet env_denied [''A'', ''B''] None =
     (Some \<lparr>ai_tweet = ''A'', ai_v2 = V2_Exception, ai_v1 = Some V1_Exception\<rparr>, Failed)"
  by (simp add: post_ai_tweet_def generate_ai_tweet_def validate_ai_credentials_def
        random_choice_def env_denied_def Let_def)

section \<open>The claims\<close>

subsection \<open>C7: the number of rounds\<close>

text \<open>
  Claim C7. Every run of post\_tweet makes at most max\_retries + 1 passes through the channel
  code, with max\_retries = 5: the log has at most six rounds, numbered 0, 1, 2, ... in order.
  The loop is a recursion over the values of range(6), so the call always ends.
\<close>

theorem post_tweet_rounds_bounded:
  "length (fst (post_tweet env tweets)) \<le> max_retries + 1 \<and> max_retries = 5 \<and>
   map retry (fst (post_tweet env tweets)) = [0..<length (fst (post_tweet env tweets))]"
  using post_tweet_length [of env tweets] post_tweet_retry [of env tweets]
  by (simp add: max_retries_def)

theorem post_tweet_rounds_bounded_witness:
  "length (fst (post_tweet env_limited [''A'', ''B''])) = 6 \<and>
   length (fst (post_tweet env_limited [''A'', ''B''])) \<le> max_retries + 1 \<and>
   map retry (fst (post_tweet env_limited [''A'', ''B''])) = [0, 1, 2, 3, 4, 5]"
  using post_tweet_rounds_bounded [of env_limited "[''A'', ''B'']"]
  by (simp add: run_limited upt_rec)

subsection \<open>C8: the backoff delay\<close>

text \<open>
  Claim C8. In every retry round, with index r \<open>\<ge>\<close> 1, the delay slept before the new
  selection is the sum of 60 * 2^(r-1) and the jitter that random.uniform(0, 10) returns, a
  number between 0 and 10; the sum, a float sum, lies between 60 * 2^(r-1) and
  60 * 2^(r-1) + 10, and nothing caps it. In the run below the draws of rounds 1 and 2 are the
  lowest and the highest, and the delays are the two ends of the interval.
\<close>

theorem backoff_delay:
  assumes "rd \<in> set (fst (post_tweet env tweets))"
    and "retry rd \<ge> 1"
  shows "\<exists>N d. N = random_uniform 0 10 (uniform env (retry rd)) \<and> 0 \<le> N \<and> N \<le> 10 \<and>
           d = float_add (float_round env) (60 * 2 ^ (retry rd - 1)) N \<and>
           slept rd = Some d \<and>
           60 * 2 ^ (retry rd - 1) \<le> d \<and> d \<le> 60 * 2 ^ (retry rd - 1) + 10"
proof -
  from assms(1) have "tweets \<noteq> []"
    by (auto simp: post_tweet_empty)
  then obtain tw where "post_tweet env tweets = retry_loop env tweets [0..<max_retries + 1] tw {tw}"
    by (rule post_tweet_loop)
  with assms(1) have "rd \<in> set (fst (retry_loop env tweets [0..<max_retries + 1] tw {tw}))"
    by simp
  from retry_loop_slept [OF this] assms(2)
  have slept: "slept rd = Some (backoff_time env (retry rd))"
    by simp
  from assms(1) obtain i where i: "i < length (fst (post_tweet env tweets))"
    and rd: "fst (post_tweet env tweets) ! i = rd"
    by (auto simp: in_set_conv_nth)
  from post_tweet_nth_retry [OF i] rd have "retry rd = i"
    by simp
  with i post_tweet_length [of env tweets] have "retry rd \<le> max_retries"
    by simp
  from backoff_time_bounds [OF assms(2) this, of env]
    random_uniform_range [of 0 10 "uniform env (retry rd)"] slept
  show ?thesis
    by simp
qed

theorem backoff_delay_witness:
  "fst (post_tweet env_limited [''A'', ''B'']) ! 3 \<in> set (fst (post_tweet env_limited [''A'', ''B''])) \<and>
   retry (fst (post_tweet env_limited [''A'', ''B'']) ! 3) = 3 \<and>
   random_uniform 0 10 (uniform env_limited 3) = 3 \<and>
   slept (fst (post_tweet env_limited [''A'', ''B'']) ! 3) = Some 243 \<and>
   (\<exists>N d. N = random_uniform 0 10 (uniform env_limited 3) \<and> 0 \<le> N \<and> N \<le> 10 \<and>
      d = float_add (float_round env_limited) (60 * 2 ^ (3 - 1)) N \<and>
      slept (fst (post_tweet env_limited [''A'', ''B'']) ! 3) = Some d \<and>
      60 * 2 ^ (3 - 1) \<le> d \<and> d \<le> 60 * 2 ^ (3 - 1) + 10) \<and>
   slept (fst (post_tweet env_limited [''A'', ''B'']) ! 1) = Some 60 \<and>
   slept (fst (post_tweet env_limited [''A'', ''B'']) ! 2) = Some (120 + 10)"
proof -
  let ?rd = "fst (post_tweet env_limited [''A'', ''B'']) ! 3"
  have h1: "?rd \<in> set (fst (post_tweet env_limited [''A'', ''B'']))"
    by (simp add: run_limited)
  have h2: "retry ?rd \<ge> 1"
    by (simp add: run_limited)
  have r: "retry ?rd = 3"
    by (simp add: run_limited)
  have u: "random_uniform 0 10 (uniform env_limited 3) = 3"
    by (simp add: env_limited_def random_uniform_def three_tenths.rep_eq)
  have s: "slept ?rd = Some 243"
       "slept (fst (post_tweet env_limited [''A'', ''B'']) ! 1) = Some 60"
       "slept (fst (post_tweet env_limited [''A'', ''B'']) ! 2) = Some (120 + 10)"
    by (simp_all add: run_limited)
  from backoff_delay [OF h1 h2] have
    "\<exists>N d. N = random_uniform 0 10 (uniform env_limited 3) \<and> 0 \<le> N \<and> N \<le> 10 \<and>
      d = float_add (float_round env_limited) (60 * 2 ^ (3 - 1)) N \<and>
      slept ?rd = Some d \<and> 60 * 2 ^ (3 - 1) \<le> d \<and> d \<le> 60 * 2 ^ (3 - 1) + 10"
    by (simp only: r)
  with h1 r u s show ?thesis
    by blast
qed

subsection \<open>C6: the set of used tweets\<close>

text \<open>
  Claim C6. In every retry round (round i + 1 of a run of post\_tweet) the set used\_tweets at
  the start is the one the round before left behind; a tweet is always selected and sent to
  the rich channel; it is a corpus entry; if used\_tweets covers the whole corpus the set is
  cleared first and afterwards holds the selected tweet alone; otherwise the selected tweet is
  not in used\_tweets and is added to it.
\<close>

theorem used_set_invariant:
  assumes "Suc i < length (fst (post_tweet env tweets))"
  shows "retry (fst (post_tweet env tweets) ! Suc i) = Suc i \<and>
     used_before (fst (post_tweet env tweets) ! Suc i) = used_after (fst (post_tweet env tweets) ! i) \<and>
     v2_result (fst (post_tweet env tweets) ! Suc i) \<noteq> None \<and>
     candidate (fst (post_tweet env tweets) ! Suc i) \<in> set tweets \<and>
     (if set tweets \<subseteq> used_before (fst (post_tweet env tweets) ! Suc i)
      then used_after (fst (post_tweet env tweets) ! Suc i) =
             {candidate (fst (post_tweet env tweets) ! Suc i)}
      else candidate (fst (post_tweet env tweets) ! Suc i) \<notin>
             used_before (fst (post_tweet env tweets) ! Suc i) \<and>
           used_after (fst (post_tweet env tweets) ! Suc i) =
             insert (candidate (fst (post_tweet env tweets) ! Suc i))
               (used_before (fst (post_tweet env tweets) ! Suc i)))"
proof -
  let ?rounds = "fst (post_tweet env tweets)"
  from assms have ne: "tweets \<noteq> []"
    by (auto simp: post_tweet_empty)
  then obtain tw where eq: "post_tweet env tweets = retry_loop env tweets [0..<max_retries + 1] tw {tw}"
    by (rule post_tweet_loop)
  from assms have r: "retry (?rounds ! Suc i) = Suc i"
    by (rule post_tweet_nth_retry)
  from assms have mem: "?rounds ! Suc i \<in> set (fst (retry_loop env tweets [0..<max_retries + 1] tw {tw}))"
    by (simp add: eq)
  from retry_loop_chain [of env tweets "[0..<max_retries + 1]" tw "{tw}"] assms
  have chain: "used_before (?rounds ! Suc i) = used_after (?rounds ! i)"
    by (simp add: eq successively_conv_nth)
  from retry_loop_select [OF ne mem] r show ?thesis
    by (simp add: chain [symmetric])
qed

theorem used_set_invariant_witness:
  "Suc 0 < length (fst (post_tweet env_limited [''A'', ''B''])) \<and>
   Suc 1 < length (fst (post_tweet env_limited [''A'', ''B''])) \<and>
   \<not> set [''A'', ''B''] \<subseteq> used_before (fst (post_tweet env_limited [''A'', ''B'']) ! Suc 0) \<and>
   candidate (fst (post_tweet env_limited [''A'', ''B'']) ! Suc 0) \<notin>
     used_before (fst (post_tweet env_limited [''A'', ''B'']) ! Suc 0) \<and>
   set [''A'', ''B''] \<subseteq> used_before (fst (post_tweet env_limited [''A'', ''B'']) ! Suc 1) \<and>
   used_after (fst (post_tweet env_limited [''A'', ''B'']) ! Suc 1) =
     {candidate (fst (post_tweet env_limited [''A'', ''B'']) ! Suc 1)}"
proof -
  have h0: "Suc 0 < length (fst (post_tweet env_limited [''A'', ''B'']))"
    by (simp add: run_limited)
  have h1: "Suc 1 < length (fst (post_tweet env_limited [''A'', ''B'']))"
    by (simp add: run_limited)
  have c0: "\<not> set [''A'', ''B''] \<subseteq> used_before (fst (post_tweet env_limited [''A'', ''B'']) ! Suc 0)"
    by (simp add: run_limited)
  have c1: "set [''A'', ''B''] \<subseteq> used_before (fst (post_tweet env_limited [''A'', ''B'']) ! Suc 1)"
    by (simp add: run_limited)
  from used_set_invariant [OF h0] used_set_invariant [OF h1] h0 h1 c0 c1 show ?thesis
    by (simp add: run_limited)
qed

subsection \<open>C5: no repetition in the next round\<close>

text \<open>
  Claim C5, as the code has it. In a retry round in which used\_tweets does not cover the
  corpus, the selected tweet differs from the tweet of the round before; with at least two
  distinct corpus entries the first retry is always such a round. In a round that resets
  used\_tweets the selection is drawn from the whole corpus and may repeat the tweet of the
  round before, as the run below does in round 2.
\<close>

theorem no_repeat_without_reset:
  assumes "Suc i < length (fst (post_tweet env tweets))"
  shows "(\<not> set tweets \<subseteq> used_before (fst (post_tweet env tweets) ! Suc i) \<longrightarrow>
            candidate (fst (post_tweet env tweets) ! Suc i) \<noteq>
            candidate (fst (post_tweet env tweets) ! i)) \<and>
         (i = 0 \<and> 2 \<le> card (set tweets) \<longrightarrow>
            candidate (fst (post_tweet env tweets) ! Suc i) \<noteq>
            candidate (fst (post_tweet env tweets) ! i))"
proof -
  let ?rounds = "fst (post_tweet env tweets)"
  let ?p = "?rounds ! i" and ?c = "?rounds ! Suc i"
  from assms have ne: "tweets \<noteq> []"
    by (auto simp: post_tweet_empty)
  then obtain tw where eq: "post_tweet env tweets = retry_loop env tweets [0..<max_retries + 1] tw {tw}"
    by (rule post_tweet_loop)
  from assms have r: "retry ?c = Suc i"
    by (rule post_tweet_nth_retry)
  from assms have memc: "?c \<in> set (fst (retry_loop env tweets [0..<max_retries + 1] tw {tw}))"
    and memp: "?p \<in> set (fst (retry_loop env tweets [0..<max_retries + 1] tw {tw}))"
    by (simp_all add: eq)
  from retry_loop_chain [of env tweets "[0..<max_retries + 1]" tw "{tw}"] assms
  have chain: "used_before ?c = used_after ?p"
    by (simp add: eq successively_conv_nth)
  have "tw \<in> {tw}" by simp
  from retry_loop_candidate_used [OF ne this memp]
  have used: "candidate ?p \<in> used_before ?c"
    by (simp add: chain)
  from retry_loop_select [OF ne memc] r
  have sel: "\<not> set tweets \<subseteq> used_before ?c \<longrightarrow> candidate ?c \<notin> used_before ?c"
    by simp
  with used have first: "\<not> set tweets \<subseteq> used_before ?c \<longrightarrow> candidate ?c \<noteq> candidate ?p"
    by auto
  have second: "candidate ?c \<noteq> candidate ?p" if "i = 0" and two: "2 \<le> card (set tweets)"
  proof -
    from assms have "?rounds \<noteq> []" by auto
    from post_tweet_first [OF this] chain that(1)
    have ub: "used_before ?c = {candidate ?p}" by simp
    have "\<not> set tweets \<subseteq> {candidate ?p}"
    proof
      assume "set tweets \<subseteq> {candidate ?p}"
      then have "card (set tweets) \<le> card {candidate ?p}"
        by (intro card_mono) simp_all
      with two show False by simp
    qed
    with first ub show ?thesis by simp
  qed
  from first second show ?thesis by blast
qed

theorem no_repeat_without_reset_witness:
  "Suc 0 < length (fst (post_tweet env_limited [''A'', ''B''])) \<and>
   \<not> set [''A'', ''B''] \<subseteq> used_before (fst (post_tweet env_limited [''A'', ''B'']) ! Suc 0) \<and>
   2 \<le> card (set [''A'', ''B'']) \<and>
   candidate (fst (post_tweet env_limited [''A'', ''B'']) ! Suc 0) \<noteq>
   candidate (fst (post_tweet env_limited [''A'', ''B'']) ! 0)"
proof -
  have h: "Suc 0 < length (fst (post_tweet env_limited [''A'', ''B'']))"
    by (simp add: run_limited)
  have c: "\<not> set [''A'', ''B''] \<subseteq> used_before (fst (post_tweet env_limited [''A'', ''B'']) ! Suc 0)"
    by (simp add: run_limited)
  have two: "2 \<le> card (set [''A'', ''B''])"
    by simp
  from no_repeat_without_reset [OF h] h c two show ?thesis
    by simp
qed

theorem no_repeat_counterexample:
  "2 \<le> card (set [''A'', ''B'']) \<and>
   candidate (fst (post_tweet env_limited [''A'', ''B'']) ! 2) =
   candidate (fst (post_tweet env_limited [''A'', ''B'']) ! 1)"
  by (simp add: run_limited)


subsection \<open>C3: the length of the posted text\<close>

text \<open>
  Claim C3, as the code has it. Every text sent to a channel is a corpus entry as loaded
  (post\_tweet, and generate\_ai\_tweet when there is no key or client or the backend raises)
  or the backend's text, stripped and, when that is longer than 280 characters, cut to its
  first 277 characters followed by three dots, 280 in all; so it has at most 280 characters
  whenever every corpus entry has. Only the backend's text is ever cut: a longer corpus entry
  is sent as it is.
\<close>

theorem message_length:
  "(\<forall>rd \<in> set (fst (post_tweet env tweets)). candidate rd \<in> set tweets) \<and>
   (\<forall>p. fst (post_ai_tweet env tweets topic) = Some p \<longrightarrow>
      (\<forall>c. openai_api_key env \<and> ai_client env \<and> completion env topic = AI_Content c \<longrightarrow>
         ai_tweet p =
           (if 280 < length (py_strip c) then take 277 (py_strip c) @ ''...'' else py_strip c) \<and>
         length (ai_tweet p) \<le> 280 \<and>
         (280 < length (py_strip c) \<longrightarrow> length (ai_tweet p) = 280)) \<and>
      (\<not> openai_api_key env \<or> \<not> ai_client env \<or> completion env topic = AI_Exception \<longrightarrow>
         ai_tweet p \<in> set tweets)) \<and>
   ((\<forall>t \<in> set tweets. length t \<le> 280) \<longrightarrow>
      (\<forall>rd \<in> set (fst (post_tweet env tweets)). length (candidate rd) \<le> 280) \<and>
      (\<forall>p. fst (post_ai_tweet env tweets topic) = Some p \<longrightarrow> length (ai_tweet p) \<le> 280))"
proof -
  have a: "\<forall>rd \<in> set (fst (post_tweet env tweets)). candidate rd \<in> set tweets"
    by (blast intro: post_tweet_candidate_corpus)
  have b: "ai_tweet p =
           (if 280 < length (py_strip c) then take 277 (py_strip c) @ ''...'' else py_strip c) \<and>
         length (ai_tweet p) \<le> 280 \<and>
         (280 < length (py_strip c) \<longrightarrow> length (ai_tweet p) = 280)"
    if "fst (post_ai_tweet env tweets topic) = Some p"
      and "openai_api_key env \<and> ai_client env \<and> completion env topic = AI_Content c" for p c
  proof -
    from that(2) generate_ai_tweet_content [of env topic c tweets] post_ai_tweet_text [OF that(1)]
    have "ai_tweet p =
           (if 280 < length (py_strip c) then take 277 (py_strip c) @ ''...'' else py_strip c)"
      by simp
    with cut_length [of "py_strip c"] show ?thesis
      by simp
  qed
  have c: "ai_tweet p \<in> set tweets"
    if "fst (post_ai_tweet env tweets topic) = Some p"
      and "\<not> openai_api_key env \<or> \<not> ai_client env \<or> completion env topic = AI_Exception" for p
    using generate_ai_tweet_fallback [OF that(2) post_ai_tweet_text [OF that(1)]] .
  have d: "\<forall>p. fst (post_ai_tweet env tweets topic) = Some p \<longrightarrow>
      ai_tweet p \<in> set tweets \<or> length (ai_tweet p) \<le> 280"
    by (blast dest: post_ai_tweet_text generate_ai_tweet_cases)
  from a b c d show ?thesis
    by blast
qed

theorem message_length_counterexample:
  "v2_result (fst (post_tweet env_denied [long_tweet]) ! 0) = Some V2_Exception \<and>
   v1_result (fst (post_tweet env_denied [long_tweet]) ! 0) = Some V1_Exception \<and>
   length (candidate (fst (post_tweet env_denied [long_tweet]) ! 0)) = 281"
  by (simp add: eval_defs env_denied_def) (simp add: long_tweet_def)

theorem message_length_witness:
  "length ''A'' \<le> (280::nat) \<and> length ''B'' \<le> (280::nat) \<and>
   fst (post_tweet env_long_reply [''A'', ''B'']) ! 0 \<in> set (fst (post_tweet env_long_reply [''A'', ''B''])) \<and>
   candidate (fst (post_tweet env_long_reply [''A'', ''B'']) ! 0) = ''A'' \<and>
   openai_api_key env_long_reply \<and> ai_client env_long_reply \<and>
   completion env_long_reply None = AI_Content long_reply \<and>
   280 < length (py_strip long_reply) \<and>
   fst (post_ai_tweet env_long_reply [''A'', ''B''] None) =
     Some \<lparr>ai_tweet = take 277 (py_strip long_reply) @ ''...'', ai_v2 = V2_Data ''18'', ai_v1 = None\<rparr> \<and>
   length (take 277 (py_strip long_reply) @ ''...'') = 280 \<and>
   \<not> openai_api_key env_denied \<and>
   fst (post_ai_tweet env_denied [''A'', ''B''] None) =
     Some \<lparr>ai_tweet = ''A'', ai_v2 = V2_Exception, ai_v1 = Some V1_Exception\<rparr>"
proof -
  have h: "\<forall>t \<in> set [''A'', ''B'']. length t \<le> 280" by simp
  have m: "fst (post_tweet env_long_reply [''A'', ''B'']) ! 0 \<in> set (fst (post_tweet env_long_reply [''A'', ''B'']))"
    by (simp add: run_long_reply)
  have k: "openai_api_key env_long_reply \<and> ai_client env_long_reply \<and>
      completion env_long_reply None = AI_Content long_reply"
    by (simp add: env_long_reply_def)
  have n: "\<not> openai_api_key env_denied"
    by (simp add: env_denied_def)
  from message_length [of env_long_reply "[''A'', ''B'']" None]
    message_length [of env_denied "[''A'', ''B'']" None] h m k n
  show ?thesis
    by (simp add: run_long_reply run_ai_long_reply run_ai_denied py_strip_long_reply)
qed


subsection \<open>C9: the empty corpus\<close>




subsection \<open>C1: both channels fail without a rate limit\<close>

text \<open>
  Claim C1 says that post\_tweet then returns a failure without backoff. With the corpus
  ["A"] and both channels raising an error that is not a rate limit, the run has one round
  and no sleep, but line 205 reads the unbound variable e and UnboundLocalError escapes.
\<close>

theorem all_channels_failed_raises:
  "post_tweet env_denied [''A''] =
     ([\<lparr>retry = 0, slept = None, used_before = {''A''}, candidate = ''A'', used_after = {''A''},
        v2_result = Some V2_Exception, v1_result = Some V1_Exception\<rparr>],
      Raised UnboundLocalError)"
  by (simp add: eval_defs env_denied_def)

subsection \<open>C4: generation on the empty corpus\<close>

text \<open>
  Claim C4 says that generate\_ai\_tweet never raises. On the empty corpus, which
  \_load\_tweets lets through, the fallback random.choice(self.tweets) raises IndexError, with
  or without a client, and post\_ai\_tweet passes the exception on.
\<close>

theorem generate_empty_corpus_raises:
  "generate_ai_tweet env_denied [] topic = Inl IndexError \<and>
   generate_ai_tweet (env_denied\<lparr>openai_api_key := True, ai_client := True\<rparr>) [] topic =
     Inl IndexError \<and>
   post_ai_tweet env_denied [] topic = (None, Raised IndexError)"
  by (simp add: generate_ai_tweet_def post_ai_tweet_def validate_ai_credentials_def
        random_choice_def env_denied_def)

theorem generate_empty_corpus_raises_witness:
  "generate_ai_tweet env_denied [] None = Inl IndexError \<and>
   post_ai_tweet env_denied [] None = (None, Raised IndexError)"
  using generate_empty_corpus_raises [of None] by simp

subsection \<open>C2: a rate limit ends the round\<close>

text \<open>
  Claim C2, as the code has it. In post\_tweet a rate limit from the rich channel ends the
  round without a call of the legacy channel; a round that either channel ends with a rate
  limit is followed, while fewer than max\_retries retries were made, by a round that first
  sleeps the backoff time, and after the last retry by the failure report; there are at most
  max\_retries + 1 rounds. post\_ai\_tweet has no retry loop: after a rate limit from the rich
  channel it calls the legacy channel with the same text, as after any other failure, and
  ends with that single round.
\<close>

theorem rate_limit_handling:
  "(i < length (fst (post_tweet env tweets)) \<longrightarrow>
      (v2_result (fst (post_tweet env tweets) ! i) = Some V2_TooManyRequests \<longrightarrow>
         v1_result (fst (post_tweet env tweets) ! i) = None) \<and>
      (rate_limited (fst (post_tweet env tweets) ! i) \<and> i < max_retries \<longrightarrow>
         Suc i < length (fst (post_tweet env tweets)) \<and>
         slept (fst (post_tweet env tweets) ! Suc i) = Some (backoff_time env (Suc i))) \<and>
      (rate_limited (fst (post_tweet env tweets) ! i) \<and> i = max_retries \<longrightarrow>
         snd (post_tweet env tweets) = Failed) \<and>
      length (fst (post_tweet env tweets)) \<le> max_retries + 1) \<and>
   (generate_ai_tweet env tweets topic = Inr t \<and> create_tweet env 0 t = V2_TooManyRequests \<longrightarrow>
      post_ai_tweet env tweets topic =
        (Some \<lparr>ai_tweet = t, ai_v2 = V2_TooManyRequests, ai_v1 = Some (update_status env 0 t)\<rparr>,
         case update_status env 0 t of V1_Status j \<Rightarrow> Posted API_v1 j | _ \<Rightarrow> Failed))"
proof -
  let ?R = "fst (post_tweet env tweets)"
  have ai: "post_ai_tweet env tweets topic =
        (Some \<lparr>ai_tweet = t, ai_v2 = V2_TooManyRequests, ai_v1 = Some (update_status env 0 t)\<rparr>,
         case update_status env 0 t of V1_Status j \<Rightarrow> Posted API_v1 j | _ \<Rightarrow> Failed)"
    if "generate_ai_tweet env tweets topic = Inr t" and lim: "create_tweet env 0 t = V2_TooManyRequests"
  proof -
    from lim have "\<forall>j. create_tweet env 0 t \<noteq> V2_Data j" by simp
    from post_ai_tweet_falls_through [OF that(1) this] lim show ?thesis by simp
  qed
  have loop: "(v2_result (?R ! i) = Some V2_TooManyRequests \<longrightarrow> v1_result (?R ! i) = None) \<and>
      (rate_limited (?R ! i) \<and> i < max_retries \<longrightarrow>
         Suc i < length ?R \<and> slept (?R ! Suc i) = Some (backoff_time env (Suc i))) \<and>
      (rate_limited (?R ! i) \<and> i = max_retries \<longrightarrow> snd (post_tweet env tweets) = Failed) \<and>
      length ?R \<le> max_retries + 1"
    if i: "i < length ?R"
  proof -
    from i have ne: "tweets \<noteq> []"
      by (auto simp: post_tweet_empty)
    then obtain tw where eq: "post_tweet env tweets = retry_loop env tweets [0..<max_retries + 1] tw {tw}"
      by (rule post_tweet_loop)
    let ?L = "retry_loop env tweets [0..<max_retries + 1] tw {tw}"
    from i have "?R ! i \<in> set ?R" by simp
    from post_tweet_channels [OF this]
    have a: "v2_result (?R ! i) = Some V2_TooManyRequests \<longrightarrow> v1_result (?R ! i) = None"
      by simp
    have b: "Suc i < length ?R \<and> slept (?R ! Suc i) = Some (backoff_time env (Suc i))"
      if rl: "rate_limited (?R ! i)" and less: "i < max_retries"
    proof -
      from i have i': "i < length (fst ?L)" by (simp add: eq)
      from less have "Suc i < length [0..<max_retries + 1]" by simp
      from retry_loop_goes_on [OF i' this] rl have next_round: "Suc i < length ?R"
        by (simp add: eq)
      then have mem: "?R ! Suc i \<in> set (fst ?L)"
        by (simp add: eq)
      from retry_loop_slept [OF mem] post_tweet_nth_retry [OF next_round] next_round
      show ?thesis by simp
    qed
    have c: "snd (post_tweet env tweets) = Failed"
      if rl: "rate_limited (?R ! i)" and last_round: "i = max_retries"
    proof -
      have RL: "fst ?L = ?R"
        by (simp only: eq)
      from post_tweet_length [of env tweets] i last_round
      have lenR: "length ?R = max_retries + 1"
        by simp
      then have len: "length (fst ?L) = length [0..<max_retries + 1]"
        by (simp only: RL length_upt diff_zero)
      from i have "?R \<noteq> []"
        by auto
      from last_conv_nth [OF this] lenR last_round have "last ?R = ?R ! i"
        by simp
      with rl have "rate_limited (last (fst ?L))"
        by (simp only: RL)
      from retry_loop_exhausted [OF _ len this] show ?thesis
        by (simp add: eq del: upt_Suc)
    qed
    from a b c post_tweet_length [of env tweets] show ?thesis by blast
  qed
  from ai loop show ?thesis by blast
qed

theorem rate_limit_handling_witness:
  "0 < length (fst (post_tweet env_limited [''A'', ''B''])) \<and>
   v2_result (fst (post_tweet env_limited [''A'', ''B'']) ! 0) = Some V2_TooManyRequests \<and>
   v1_result (fst (post_tweet env_limited [''A'', ''B'']) ! 0) = None \<and>
   rate_limited (fst (post_tweet env_limited [''A'', ''B'']) ! 0) \<and> 0 < max_retries \<and>
   slept (fst (post_tweet env_limited [''A'', ''B'']) ! Suc 0) = Some (backoff_time env_limited (Suc 0)) \<and>
   generate_ai_tweet env_limited [''A'', ''B''] None = Inr ''B'' \<and>
   create_tweet env_limited 0 ''B'' = V2_TooManyRequests \<and>
   post_ai_tweet env_limited [''A'', ''B''] None =
     (Some \<lparr>ai_tweet = ''B'', ai_v2 = V2_TooManyRequests, ai_v1 = Some V1_Exception\<rparr>, Failed)"
proof -
  have h: "0 < length (fst (post_tweet env_limited [''A'', ''B'']))"
    by (simp add: run_limited)
  have v2: "v2_result (fst (post_tweet env_limited [''A'', ''B'']) ! 0) = Some V2_TooManyRequests"
    by (simp add: run_limited)
  have rl: "rate_limited (fst (post_tweet env_limited [''A'', ''B'']) ! 0)"
    by (simp add: run_limited rate_limited_def)
  have m: "0 < max_retries"
    by (simp add: max_retries_def)
  have g: "generate_ai_tweet env_limited [''A'', ''B''] None = Inr ''B''"
    by (simp add: generate_ai_tweet_def validate_ai_credentials_def random_choice_def
          env_limited_def)
  have c: "create_tweet env_limited 0 ''B'' = V2_TooManyRequests"
    by (simp add: env_limited_def)
  have u: "update_status env_limited 0 ''B'' = V1_Exception"
    by (simp add: env_limited_def)
  from rate_limit_handling [of 0 env_limited "[''A'', ''B'']" None "''B''"] h v2 rl m g c u
  show ?thesis by simp
qed

theorem rate_limit_handling_counterexample:
  "generate_ai_tweet env_ai_limited [''A'', ''B''] None = Inr ''gm'' \<and>
   create_tweet env_ai_limited 0 ''gm'' = V2_TooManyRequests \<and>
   post_ai_tweet env_ai_limited [''A'', ''B''] None =
     (Some \<lparr>ai_tweet = ''gm'', ai_v2 = V2_TooManyRequests, ai_v1 = Some (V1_Status ''17'')\<rparr>,
      Posted API_v1 ''17'')"
  by (simp add: post_ai_tweet_def generate_ai_tweet_def validate_ai_credentials_def
        env_ai_limited_def py_strip_def py_isspace_def Let_def)

subsection \<open>C10: a response without data\<close>

text \<open>
  Claim C10. When the rich channel returns a response that is falsy or has no attribute data,
  the round does not return: the legacy channel is called with the same text in the same
  round, in post\_tweet and in post\_ai\_tweet alike, so one call can send one text through
  both channels (in the run below the legacy channel then posts it).
\<close>

theorem rich_channel_without_data:
  "(\<forall>rd \<in> set (fst (post_tweet env tweets)). v2_result rd = Some V2_No_Data \<longrightarrow>
      create_tweet env (retry rd) (candidate rd) = V2_No_Data \<and>
      v1_result rd = Some (update_status env (retry rd) (candidate rd))) \<and>
   (generate_ai_tweet env tweets topic = Inr t \<and> create_tweet env 0 t = V2_No_Data \<longrightarrow>
      post_ai_tweet env tweets topic =
        (Some \<lparr>ai_tweet = t, ai_v2 = V2_No_Data, ai_v1 = Some (update_status env 0 t)\<rparr>,
         case update_status env 0 t of V1_Status j \<Rightarrow> Posted API_v1 j | _ \<Rightarrow> Failed))"
proof -
  have a: "\<forall>rd \<in> set (fst (post_tweet env tweets)). v2_result rd = Some V2_No_Data \<longrightarrow>
      create_tweet env (retry rd) (candidate rd) = V2_No_Data \<and>
      v1_result rd = Some (update_status env (retry rd) (candidate rd))"
    using post_tweet_channels [of _ env tweets] by fastforce
  have b: "post_ai_tweet env tweets topic =
        (Some \<lparr>ai_tweet = t, ai_v2 = V2_No_Data, ai_v1 = Some (update_status env 0 t)\<rparr>,
         case update_status env 0 t of V1_Status j \<Rightarrow> Posted API_v1 j | _ \<Rightarrow> Failed)"
    if "generate_ai_tweet env tweets topic = Inr t" and nd: "create_tweet env 0 t = V2_No_Data"
  proof -
    from nd have "\<forall>j. create_tweet env 0 t \<noteq> V2_Data j" by simp
    from post_ai_tweet_falls_through [OF that(1) this] nd show ?thesis by simp
  qed
  from a b show ?thesis by blast
qed

theorem rich_channel_without_data_witness:
  "fst (post_tweet env_no_data [''A'', ''B'']) ! 0 \<in> set (fst (post_tweet env_no_data [''A'', ''B''])) \<and>
   candidate (fst (post_tweet env_no_data [''A'', ''B'']) ! 0) = ''A'' \<and>
   v2_result (fst (post_tweet env_no_data [''A'', ''B'']) ! 0) = Some V2_No_Data \<and>
   v1_result (fst (post_tweet env_no_data [''A'', ''B'']) ! 0) = Some (V1_Status ''17'') \<and>
   snd (post_tweet env_no_data [''A'', ''B'']) = Posted API_v1 ''17'' \<and>
   generate_ai_tweet env_no_data [''A'', ''B''] None = Inr ''gm'' \<and>
   create_tweet env_no_data 0 ''gm'' = V2_No_Data \<and>
   post_ai_tweet env_no_data [''A'', ''B''] None =
     (Some \<lparr>ai_tweet = ''gm'', ai_v2 = V2_No_Data, ai_v1 = Some (V1_Status ''17'')\<rparr>,
      Posted API_v1 ''17'')"
proof -
  have m: "fst (post_tweet env_no_data [''A'', ''B'']) ! 0 \<in> set (fst (post_tweet env_no_data [''A'', ''B'']))"
    by (simp add: run_no_data)
  have v2: "v2_result (fst (post_tweet env_no_data [''A'', ''B'']) ! 0) = Some V2_No_Data"
    by (simp add: run_no_data)
  have g: "generate_ai_tweet env_no_data [''A'', ''B''] None = Inr ''gm''"
    by (simp add: generate_ai_tweet_def validate_ai_credentials_def env_no_data_def
          py_strip_def py_isspace_def Let_def)
  have c: "create_tweet env_no_data 0 ''gm'' = V2_No_Data"
    by (simp add: env_no_data_def)
  have u: "update_status env_no_data 0 ''gm'' = V1_Status ''17''"
       "update_status env_no_data 0 ''A'' = V1_Status ''17''"
    by (simp_all add: env_no_data_def)
  from rich_channel_without_data [of env_no_data "[''A'', ''B'']" None "''gm''"] m v2 g c u
  show ?thesis by (simp add: run_no_data)
qed

end
